theory Spec2Isabelle
  imports Complex_Main "HOL-Library.Sublist"
begin

section \<open>Data model of \<open>triton.py\<close>\<close>

text \<open>
  A \<open>pathlib.Path\<close> is its anchor (drive and root, empty for a relative path) and the
  components after the anchor. \<open>Path.parent\<close> is purely lexical: it drops the last
  component and returns the path itself when there is none; \<open>dir / name\<close> appends one.
\<close>

datatype path = Path string "string list"

fun parent :: "path \<Rightarrow> path" where
  "parent (Path a t) = Path a (butlast t)"

fun child :: "path \<Rightarrow> string \<Rightarrow> path" where
  "child (Path a t) n = Path a (t @ [n])"

type_synonym city = string
type_synonym model = string
type_synonym scenario = string
type_synonym date = string
type_synonym params = "(string \<times> string) list"
type_synonym records = "string list"
type_synonym exn = string

text \<open>The handle returned by \<open>subprocess.Popen\<close>, identified by its process id.\<close>

datatype proc = Proc (pid: nat)

text \<open>
  The exceptions that leave the code: those raised by the standard-library operations the
  source applies itself (\<open>next\<close> on an exhausted iterator, a dictionary lookup,
  \<open>statistics.mean\<close> of an empty sequence, \<open>time.sleep\<close> of a negative length), and
  \<open>Raised c\<close> for an exception of class \<open>c\<close> raised inside a collaborator call
  (\<open>subprocess.Popen\<close>, the automator, the parsers, the exporter).
\<close>

datatype error =
    StopIteration
  | KeyError scenario
  | StatisticsError
  | ValueError
  | Raised exn

text \<open>
  What the source passes to \<open>logger.debug\<close> and \<open>logger.info\<close>. The interpolated values
  are kept as values, not rendered as text. Readings of \<open>time.perf_counter\<close> and their
  differences are rationals: every float is one, and the rounding of float arithmetic is
  not modelled.
\<close>

datatype log_msg =
    Spawned nat
  | FinishedFirst city model scenario rat
  | FinishedSimulation city model scenario rat
  | Completed rat rat
  | TerminatedNetuno

text \<open>
  Every call that leaves \<open>triton.py\<close> is an event, recorded with its arguments at the
  moment the call is made. \<open>SaveResults\<close> carries the root the one \<open>Exporter\<close> object was
  constructed with, \<open>ParseResults\<close> the output path its \<open>ResultParser\<close> was constructed
  with.
\<close>

datatype event =
    PerfCounter
  | Popen path
  | LogDebug log_msg
  | Sleep int
  | NetunoAutomator
  | Exporter path
  | Listdir path
  | GetMetadata path
  | RunFirstSimulation path date params
  | RunSimulation path date
  | ResultParser path
  | ParseResults path
  | SaveResults path city model scenario records
  | LogInfo log_msg
  | Terminate proc

type_synonym history = "event list"

text \<open>
  The collaborators imported by \<open>triton.py\<close> are not part of the file, so they are
  parameters. Each one either raises (\<open>Inl\<close> the exception class) or returns, and may
  depend on everything that happened before (the external program is stateful), except
  \<open>FileNameParser.get_metadata\<close>, a static method that reads nothing but the file's name.
  \<open>poll\<close> is \<open>Popen.poll\<close>: the exit code of a process that has ended. The three
  constants come from \<open>globals.constants\<close>.
\<close>

record env =
  NETUNO_STARTUP_WAIT_TIME :: int
  INITIAL_DATES :: "scenario \<rightharpoonup> date"
  SIMULATION_PARAMETERS :: params
  popen :: "history \<Rightarrow> path \<Rightarrow> exn + proc"
  poll :: "history \<Rightarrow> proc \<Rightarrow> int option"
  perf_counter :: "history \<Rightarrow> rat"
  new_automator :: "history \<Rightarrow> exn + unit"
  new_exporter :: "history \<Rightarrow> path \<Rightarrow> exn + unit"
  listdir :: "history \<Rightarrow> path \<Rightarrow> exn + string list"
  get_metadata :: "path \<Rightarrow> exn + (city \<times> model \<times> scenario)"
  run_first_simulation :: "history \<Rightarrow> path \<Rightarrow> date \<Rightarrow> params \<Rightarrow> exn + path"
  run_simulation :: "history \<Rightarrow> path \<Rightarrow> date \<Rightarrow> exn + path"
  new_parser :: "history \<Rightarrow> path \<Rightarrow> exn + unit"
  parse_results :: "history \<Rightarrow> path \<Rightarrow> exn + records"
  save_results :: "history \<Rightarrow> path \<Rightarrow> city \<Rightarrow> model \<Rightarrow> scenario \<Rightarrow> records \<Rightarrow> exn + unit"

text \<open>The two attributes of \<open>CommandLineArgsValidator\<close> that \<open>main\<close> reads.\<close>

record args =
  netuno_exe_path :: path
  precipitation_dir_path :: path

section \<open>Sequencing with exceptions\<close>

text \<open>
  A statement takes the history so far and returns the extended history together with
  an exception or a value. \<open>bind\<close> is sequencing: an exception ends the sequence.
\<close>

type_synonym 'a io = "history \<Rightarrow> history \<times> (error + 'a)"

definition ret :: "'a \<Rightarrow> 'a io" where
  "ret x = (\<lambda>h. (h, Inr x))"

definition raise :: "error \<Rightarrow> 'a io" where
  "raise e = (\<lambda>h. (h, Inl e))"

definition bind :: "'a io \<Rightarrow> ('a \<Rightarrow> 'b io) \<Rightarrow> 'b io" where
  "bind m k = (\<lambda>h. case m h of (h', Inl e) \<Rightarrow> (h', Inl e) | (h', Inr x) \<Rightarrow> k x h')"

definition emit :: "event \<Rightarrow> unit io" where
  "emit ev = (\<lambda>h. (h @ [ev], Inr ()))"

definition extern :: "event \<Rightarrow> (history \<Rightarrow> exn + 'a) \<Rightarrow> 'a io" where
  "extern ev f = (\<lambda>h. case f (h @ [ev]) of
       Inl c \<Rightarrow> (h @ [ev], Inl (Raised c))
     | Inr v \<Rightarrow> (h @ [ev], Inr v))"

definition time_perf_counter :: "env \<Rightarrow> rat io" where
  "time_perf_counter E = (\<lambda>h. (h @ [PerfCounter], Inr (perf_counter E (h @ [PerfCounter]))))"

definition time_sleep :: "int \<Rightarrow> unit io" where
  "time_sleep secs = (if secs < 0 then raise ValueError else emit (Sleep secs))"

section \<open>\<open>run_netuno\<close>\<close>

definition run_netuno :: "env \<Rightarrow> path \<Rightarrow> int \<Rightarrow> proc io" where
  "run_netuno E path_to_netuno wait_after_start =
     bind (extern (Popen path_to_netuno) (\<lambda>h. popen E h path_to_netuno)) (\<lambda>new_process.
     bind (emit (LogDebug (Spawned (pid new_process)))) (\<lambda>_.
     bind (time_sleep wait_after_start) (\<lambda>_.
     ret new_process)))"

section \<open>\<open>main\<close>\<close>

text \<open>
  \<open>Path.iterdir\<close> is a generator: the directory is listed when the first entry is
  asked for, in the order the operating system gives, and every name becomes the path
  \<open>dir / name\<close>.
\<close>

definition iterdir :: "env \<Rightarrow> path \<Rightarrow> path list io" where
  "iterdir E dir =
     bind (extern (Listdir dir) (\<lambda>h. listdir E h dir)) (\<lambda>names.
     ret (map (child dir) names))"

text \<open>\<open>INITIAL_DATES[scenario]\<close>: a missing key raises \<open>KeyError\<close>.\<close>

definition initial_date :: "env \<Rightarrow> scenario \<Rightarrow> date io" where
  "initial_date E scenario =
     (case INITIAL_DATES E scenario of
        None \<Rightarrow> raise (KeyError scenario)
      | Some d \<Rightarrow> ret d)"

text \<open>\<open>statistics.mean\<close>: the arithmetic mean, \<open>StatisticsError\<close> on an empty sequence.\<close>

definition mean :: "rat list \<Rightarrow> rat io" where
  "mean data =
     (if length data < 1 then raise StatisticsError
      else ret (sum_list data / of_nat (length data)))"

text \<open>
  Lines 83 to 90: the first file, with the whole of \<open>SIMULATION_PARAMETERS\<close> passed as
  keyword arguments. The argument \<open>exporter\<close> is the root directory the \<open>Exporter\<close> object
  was constructed with.
\<close>

definition first_simulation :: "env \<Rightarrow> path \<Rightarrow> path \<Rightarrow> rat \<Rightarrow> unit io" where
  "first_simulation E exporter first_file iteration_start_time =
     bind (extern (GetMetadata first_file) (\<lambda>h. get_metadata E first_file))
       (\<lambda>(city, model, scenario).
     bind (initial_date E scenario) (\<lambda>d.
     bind (extern (RunFirstSimulation first_file d (SIMULATION_PARAMETERS E))
            (\<lambda>h. run_first_simulation E h first_file d (SIMULATION_PARAMETERS E)))
       (\<lambda>output_path.
     bind (extern (ResultParser output_path) (\<lambda>h. new_parser E h output_path)) (\<lambda>_.
     bind (extern (ParseResults output_path) (\<lambda>h. parse_results E h output_path)) (\<lambda>rs.
     bind (extern (SaveResults exporter city model scenario rs)
            (\<lambda>h. save_results E h exporter city model scenario rs)) (\<lambda>_.
     bind (time_perf_counter E) (\<lambda>t.
     emit (LogInfo (FinishedFirst city model scenario (t - iteration_start_time))))))))))"

text \<open>Lines 92 to 101: the body of the loop, returning the duration it appends.\<close>

definition loop_body :: "env \<Rightarrow> path \<Rightarrow> path \<Rightarrow> rat io" where
  "loop_body E exporter file =
     bind (time_perf_counter E) (\<lambda>iteration_start_time.
     bind (extern (GetMetadata file) (\<lambda>h. get_metadata E file))
       (\<lambda>(city, model, scenario).
     bind (initial_date E scenario) (\<lambda>d.
     bind (extern (RunSimulation file d) (\<lambda>h. run_simulation E h file d)) (\<lambda>output_path.
     bind (extern (ResultParser output_path) (\<lambda>h. new_parser E h output_path)) (\<lambda>_.
     bind (extern (ParseResults output_path) (\<lambda>h. parse_results E h output_path)) (\<lambda>rs.
     bind (extern (SaveResults exporter city model scenario rs)
            (\<lambda>h. save_results E h exporter city model scenario rs)) (\<lambda>_.
     bind (time_perf_counter E) (\<lambda>t.
     bind (emit (LogInfo (FinishedSimulation city model scenario (t - iteration_start_time))))
       (\<lambda>_.
     ret (t - iteration_start_time))))))))))"

text \<open>\<open>for file in path_iterator\<close>, with the list \<open>durations\<close> as accumulator.\<close>

fun for_loop :: "env \<Rightarrow> path \<Rightarrow> path list \<Rightarrow> rat list \<Rightarrow> rat list io" where
  "for_loop E exporter [] durations = ret durations"
| "for_loop E exporter (file # files) durations =
     bind (loop_body E exporter file) (\<lambda>duration.
     for_loop E exporter files (durations @ [duration]))"

text \<open>
  Lines 103 to 108: the summary with the mean of \<open>durations\<close>, then the termination of
  the process. In the formatted string the clock is read before the mean is computed.
\<close>

definition summary :: "env \<Rightarrow> proc \<Rightarrow> rat \<Rightarrow> rat list \<Rightarrow> unit io" where
  "summary E netuno_process global_start_time durations =
     bind (time_perf_counter E) (\<lambda>t.
     bind (mean durations) (\<lambda>average.
     bind (emit (LogInfo (Completed (t - global_start_time) average))) (\<lambda>_.
     bind (emit (Terminate netuno_process)) (\<lambda>_.
     emit (LogInfo TerminatedNetuno)))))"

text \<open>
  Lines 82 to 108: \<open>next(path_iterator)\<close> raises \<open>StopIteration\<close> when there is no entry;
  otherwise the first entry is simulated with the full configuration, the remaining
  entries by the loop, and the summary follows.
\<close>

definition process_files ::
  "env \<Rightarrow> path \<Rightarrow> proc \<Rightarrow> rat \<Rightarrow> rat \<Rightarrow> path list \<Rightarrow> unit io" where
  "process_files E exporter netuno_process global_start_time iteration_start_time
       path_iterator =
     (case path_iterator of
        [] \<Rightarrow> raise StopIteration
      | first_file # rest \<Rightarrow>
          bind (first_simulation E exporter first_file iteration_start_time) (\<lambda>_.
          bind (for_loop E exporter rest []) (\<lambda>durations.
          summary E netuno_process global_start_time durations)))"

text \<open>Lines 73 to 81, and the rest of \<open>main\<close> after them.\<close>

definition main :: "env \<Rightarrow> args \<Rightarrow> unit io" where
  "main E a =
     bind (time_perf_counter E) (\<lambda>global_start_time.
     bind (run_netuno E (netuno_exe_path a) (NETUNO_STARTUP_WAIT_TIME E)) (\<lambda>netuno_process.
     bind (extern NetunoAutomator (new_automator E)) (\<lambda>_.
     bind (extern (Exporter (parent (parent (precipitation_dir_path a))))
            (\<lambda>h. new_exporter E h (parent (parent (precipitation_dir_path a))))) (\<lambda>_.
     bind (time_perf_counter E) (\<lambda>iteration_start_time.
     bind (iterdir E (precipitation_dir_path a)) (\<lambda>path_iterator.
     process_files E (parent (parent (precipitation_dir_path a))) netuno_process
       global_start_time iteration_start_time path_iterator))))))"

text \<open>An execution starts with an empty history.\<close>

definition trace :: "env \<Rightarrow> args \<Rightarrow> history" where
  "trace E a = fst (main E a [])"

definition outcome :: "env \<Rightarrow> args \<Rightarrow> error + unit" where
  "outcome E a = snd (main E a [])"

section \<open>\<open>setup_logger\<close>\<close>

definition DEBUG :: int where "DEBUG = 10"
definition INFO :: int where "INFO = 20"
definition WARNING :: int where "WARNING = 30"
definition ERROR :: int where "ERROR = 40"

record handler =
  handler_level :: int
  handler_fmt :: string
  handler_datefmt :: string

record logger =
  propagate :: bool
  level :: int
  handlers :: "handler list"

definition log_level :: "int \<Rightarrow> bool \<Rightarrow> int" where
  "log_level quiet_count verbose =
     (if verbose then DEBUG
      else if quiet_count = 1 then WARNING
      else if quiet_count \<ge> 2 then ERROR
      else INFO)"

definition setup_logger :: "logger \<Rightarrow> int \<Rightarrow> bool \<Rightarrow> logger" where
  "setup_logger lg quiet_count verbose =
     (let lvl = log_level quiet_count verbose;
          handler = \<lparr>handler_level = lvl,
                handler_fmt = ''%(asctime)s  %(levelname)-8.8s: %(message)s'',
                handler_datefmt = ''%Y-%m-%dT%H:%M:%S%z''\<rparr>
      in lg\<lparr>propagate := True, level := lvl, handlers := handlers lg @ [handler]\<rparr>)"

text \<open>
  \<open>Logger.getEffectiveLevel\<close>: the logger's own level when it is set (not 0), otherwise
  the effective level of its ancestors.
\<close>

definition getEffectiveLevel :: "int \<Rightarrow> logger \<Rightarrow> int" where
  "getEffectiveLevel inherited lg = (if level lg \<noteq> 0 then level lg else inherited)"

section \<open>Reading a history\<close>

text \<open>The calls of one kind that a history holds, in order, with their arguments.\<close>

definition calls :: "(event \<Rightarrow> 'a list) \<Rightarrow> history \<Rightarrow> 'a list" where
  "calls f h = concat (map f h)"

fun run_first_of :: "event \<Rightarrow> (path \<times> date \<times> params) list" where
  "run_first_of (RunFirstSimulation f d ps) = [(f, d, ps)]"
| "run_first_of _ = []"

fun run_simulation_of :: "event \<Rightarrow> (path \<times> date) list" where
  "run_simulation_of (RunSimulation f d) = [(f, d)]"
| "run_simulation_of _ = []"

fun run_of :: "event \<Rightarrow> path list" where
  "run_of (RunFirstSimulation f d ps) = [f]"
| "run_of (RunSimulation f d) = [f]"
| "run_of _ = []"

fun metadata_of :: "event \<Rightarrow> path list" where
  "metadata_of (GetMetadata f) = [f]"
| "metadata_of _ = []"

fun exporter_of :: "event \<Rightarrow> path list" where
  "exporter_of (Exporter r) = [r]"
| "exporter_of _ = []"

fun save_of :: "event \<Rightarrow> (path \<times> city \<times> model \<times> scenario) list" where
  "save_of (SaveResults r c m s rs) = [(r, c, m, s)]"
| "save_of _ = []"

fun terminate_of :: "event \<Rightarrow> proc list" where
  "terminate_of (Terminate p) = [p]"
| "terminate_of _ = []"

fun first_duration_of :: "event \<Rightarrow> rat list" where
  "first_duration_of (LogInfo (FinishedFirst c m s d)) = [d]"
| "first_duration_of _ = []"

fun duration_of :: "event \<Rightarrow> rat list" where
  "duration_of (LogInfo (FinishedSimulation c m s d)) = [d]"
| "duration_of _ = []"

fun average_of :: "event \<Rightarrow> rat list" where
  "average_of (LogInfo (Completed elapsed average)) = [average]"
| "average_of _ = []"

text \<open>The root and the identifiers of a \<open>save_results\<close> call, as \<open>get_metadata\<close> returns them.\<close>

fun save_key ::
  "path \<times> city \<times> model \<times> scenario \<Rightarrow> path \<times> (exn + city \<times> model \<times> scenario)" where
  "save_key (r, c, m, s) = (r, Inr (c, m, s))"

text \<open>
  The order of Driver calls in a history: \<open>run_first_simulation\<close> only while nothing is
  configured yet, and then with the parameter mapping \<open>ps\<close>; \<open>run_simulation\<close> only after
  that.
\<close>

fun first_then_next :: "params \<Rightarrow> bool \<Rightarrow> history \<Rightarrow> bool" where
  "first_then_next ps configured [] = True"
| "first_then_next ps configured (RunFirstSimulation f d qs # h) =
     (\<not> configured \<and> qs = ps \<and> first_then_next ps True h)"
| "first_then_next ps configured (RunSimulation f d # h) =
     (configured \<and> first_then_next ps configured h)"
| "first_then_next ps configured (ev # h) = first_then_next ps configured h"

text \<open>
  An execution reaches the summary of line 103 when nothing raised before it: it then
  either returns or stops in \<open>statistics.mean\<close>.
\<close>

definition reaches_summary :: "env \<Rightarrow> args \<Rightarrow> bool" where
  "reaches_summary E a = (outcome E a = Inr () \<or> outcome E a = Inl StatisticsError)"

section \<open>Concrete executions\<close>

text \<open>
  An environment in which every collaborator returns: the directory holds \<open>names\<close>, the
  clock advances by one with every event, and the model of a file is its name.
\<close>

definition demo_metadata :: "path \<Rightarrow> exn + (city \<times> model \<times> scenario)" where
  "demo_metadata p = (case p of Path a t \<Rightarrow> Inr (''Floripa'', last t, ''ssp245''))"

definition demo_env :: "string list \<Rightarrow> env" where
  "demo_env names =
     \<lparr>NETUNO_STARTUP_WAIT_TIME = 5,
      INITIAL_DATES = [''ssp245'' \<mapsto> ''2015-01-01''],
      SIMULATION_PARAMETERS = [(''catchment_area'', ''100''), (''tank_capacity'', ''5000'')],
      popen = (\<lambda>h p. Inr (Proc 4242)),
      poll = (\<lambda>h p. None),
      perf_counter = (\<lambda>h. of_nat (length h)),
      new_automator = (\<lambda>h. Inr ()),
      new_exporter = (\<lambda>h p. Inr ()),
      listdir = (\<lambda>h p. Inr names),
      get_metadata = demo_metadata,
      run_first_simulation = (\<lambda>h f d ps. Inr (Path ''C:/'' [''netuno'', ''out.csv''])),
      run_simulation = (\<lambda>h f d. Inr (Path ''C:/'' [''netuno'', ''out.csv''])),
      new_parser = (\<lambda>h p. Inr ()),
      parse_results = (\<lambda>h p. Inr [''row'']),
      save_results = (\<lambda>h r c m s rs. Inr ())\<rparr>"

definition demo_args :: args where
  "demo_args =
     \<lparr>netuno_exe_path = Path ''C:/'' [''netuno'', ''netuno.exe''],
      precipitation_dir_path = Path ''C:/'' [''data'', ''floripa'', ''precipitation'']\<rparr>"

text \<open>A listing of three entries, the last of which is not a CSV file.\<close>

definition three_files :: "string list" where
  "three_files = [''a.csv'', ''b.csv'', ''notes.txt'']"

text \<open>The precipitation directory of \<open>demo_args\<close>.\<close>

definition demo_dir :: path where
  "demo_dir = Path ''C:/'' [''data'', ''floripa'', ''precipitation'']"

text \<open>Two files, and the result parser raises on the output of every run.\<close>

definition parse_failure_env :: env where
  "parse_failure_env =
     (demo_env [''a.csv'', ''b.csv''])\<lparr>parse_results := (\<lambda>h p. Inl ''ResultParseError'')\<rparr>"

text \<open>The executable cannot be started: \<open>subprocess.Popen\<close> raises.\<close>

definition missing_exe_env :: env where
  "missing_exe_env =
     (demo_env three_files)\<lparr>popen := (\<lambda>h p. Inl ''FileNotFoundError'')\<rparr>"




section \<open>Auxiliary notions for the proofs\<close>

text \<open>The history at the moment the directory has been listed, for a launched process.\<close>

definition started :: "env \<Rightarrow> args \<Rightarrow> proc \<Rightarrow> history" where
  "started E a pr =
     [PerfCounter, Popen (netuno_exe_path a), LogDebug (Spawned (pid pr)),
      Sleep (NETUNO_STARTUP_WAIT_TIME E), NetunoAutomator,
      Exporter (parent (parent (precipitation_dir_path a))), PerfCounter,
      Listdir (precipitation_dir_path a)]"

text \<open>The events the loop over \<open>files\<close> can add to a history.\<close>

definition loop_event :: "env \<Rightarrow> path \<Rightarrow> path list \<Rightarrow> event \<Rightarrow> bool" where
  "loop_event E x files e =
     (e = PerfCounter \<or>
      (\<exists>f \<in> set files. e = GetMetadata f) \<or>
      (\<exists>f \<in> set files. \<exists>c m s d.
         get_metadata E f = Inr (c, m, s) \<and> INITIAL_DATES E s = Some d \<and>
         e = RunSimulation f d) \<or>
      (\<exists>out. e = ResultParser out \<or> e = ParseResults out) \<or>
      (\<exists>f \<in> set files. \<exists>c m s rs.
         get_metadata E f = Inr (c, m, s) \<and> e = SaveResults x c m s rs) \<or>
      (\<exists>c m s dur. e = LogInfo (FinishedSimulation c m s dur)))"

section \<open>Histories of the blocks of \<open>main\<close>\<close>

lemmas io_defs = bind_def ret_def raise_def emit_def extern_def time_perf_counter_def
  time_sleep_def initial_date_def

lemma calls_simps [simp]: "calls f [] = []" "calls f (e # h) = f e @ calls f h"
  "calls f (h @ k) = calls f h @ calls f k"
  by (simp_all add: calls_def)

lemma first_simulation_Inr:
  assumes "first_simulation E x f t0 h = (h', Inr u)"
  shows "\<exists>c m s d out rs dur. h' = h @ [GetMetadata f,
      RunFirstSimulation f d (SIMULATION_PARAMETERS E),
      ResultParser out, ParseResults out, SaveResults x c m s rs, PerfCounter,
      LogInfo (FinishedFirst c m s dur)] \<and> get_metadata E f = Inr (c, m, s)
      \<and> INITIAL_DATES E s = Some d"
  using assms
  by (auto simp: first_simulation_def io_defs split: sum.splits option.splits prod.splits)

lemma first_simulation_Inl:
  assumes "first_simulation E x f t0 h = (h', Inl e)"
  shows "\<exists>c m s d out rs. e \<noteq> StatisticsError \<and> e \<noteq> StopIteration \<and>
     (h' = h @ [GetMetadata f] \<or>
      (get_metadata E f = Inr (c, m, s) \<and> INITIAL_DATES E s = Some d \<and>
      (h' = h @ [GetMetadata f, RunFirstSimulation f d (SIMULATION_PARAMETERS E)] \<or>
      h' = h @ [GetMetadata f, RunFirstSimulation f d (SIMULATION_PARAMETERS E),
                ResultParser out] \<or>
      h' = h @ [GetMetadata f, RunFirstSimulation f d (SIMULATION_PARAMETERS E),
                ResultParser out, ParseResults out] \<or>
      h' = h @ [GetMetadata f, RunFirstSimulation f d (SIMULATION_PARAMETERS E),
                ResultParser out, ParseResults out, SaveResults x c m s rs])))"
  using assms
  by (auto simp: first_simulation_def io_defs split: sum.splits option.splits prod.splits)

lemma loop_body_Inr:
  assumes "loop_body E x file h = (h', Inr dur)"
  shows "\<exists>c m s d out rs. h' = h @ [PerfCounter, GetMetadata file, RunSimulation file d,
      ResultParser out, ParseResults out, SaveResults x c m s rs, PerfCounter,
      LogInfo (FinishedSimulation c m s dur)] \<and> get_metadata E file = Inr (c, m, s)
      \<and> INITIAL_DATES E s = Some d"
  using assms
  by (auto simp: loop_body_def io_defs split: sum.splits option.splits prod.splits)

lemma loop_body_Inl:
  assumes "loop_body E x file h = (h', Inl e)"
  shows "\<exists>c m s d out rs. e \<noteq> StatisticsError \<and> e \<noteq> StopIteration \<and>
     (h' = h @ [PerfCounter, GetMetadata file] \<or>
      (get_metadata E file = Inr (c, m, s) \<and> INITIAL_DATES E s = Some d \<and>
      (h' = h @ [PerfCounter, GetMetadata file, RunSimulation file d] \<or>
      h' = h @ [PerfCounter, GetMetadata file, RunSimulation file d, ResultParser out] \<or>
      h' = h @ [PerfCounter, GetMetadata file, RunSimulation file d, ResultParser out,
                ParseResults out] \<or>
      h' = h @ [PerfCounter, GetMetadata file, RunSimulation file d, ResultParser out,
                ParseResults out, SaveResults x c m s rs])))"
  using assms
  by (auto simp: loop_body_def io_defs split: sum.splits option.splits prod.splits)

lemma loop_event_mono: "loop_event E x fs e \<Longrightarrow> loop_event E x (f # fs) e"
  by (auto simp: loop_event_def)

lemma loop_body_frame:
  assumes "loop_body E x file h = (h', r)"
  shows "\<exists>evs. h' = h @ evs \<and> list_all (loop_event E x [file]) evs"
proof (cases r)
  case (Inl e)
  with loop_body_Inl[OF assms[unfolded Inl]] show ?thesis
    by (auto simp: loop_event_def)
next
  case (Inr dur)
  with loop_body_Inr[OF assms[unfolded Inr]] show ?thesis
    by (auto simp: loop_event_def)
qed

lemma for_loop_frame:
  "for_loop E x files ds h = (h', r) \<Longrightarrow>
     \<exists>evs. h' = h @ evs \<and> list_all (loop_event E x files) evs"
proof (induction files arbitrary: ds h)
  case Nil
  then show ?case by (simp add: ret_def)
next
  case (Cons f fs)
  obtain h1 r1 where b: "loop_body E x f h = (h1, r1)" by (cases "loop_body E x f h")
  from loop_body_frame[OF b] obtain evs1 where
    e1: "h1 = h @ evs1" "list_all (loop_event E x [f]) evs1" by blast
  have m1: "list_all (loop_event E x (f # fs)) evs1"
    using e1(2) by (auto simp: list_all_iff loop_event_def)
  show ?case
  proof (cases r1)
    case (Inl e)
    with Cons.prems b have "h' = h1" by (simp add: bind_def)
    with e1 m1 show ?thesis by blast
  next
    case (Inr dur)
    with Cons.prems b have "for_loop E x fs (ds @ [dur]) h1 = (h', r)"
      by (simp add: bind_def)
    from Cons.IH[OF this] obtain evs2 where
      e2: "h' = h1 @ evs2" "list_all (loop_event E x fs) evs2" by blast
    have "list_all (loop_event E x (f # fs)) evs2"
      using e2(2) by (auto simp: list_all_iff intro: loop_event_mono)
    with e1 e2 m1 show ?thesis by auto
  qed
qed

lemma for_loop_Inr:
  "for_loop E x files ds h = (h', Inr ds') \<Longrightarrow>
     calls metadata_of h' = calls metadata_of h @ files \<and>
     calls run_of h' = calls run_of h @ files \<and>
     map fst (calls run_simulation_of h') = map fst (calls run_simulation_of h) @ files \<and>
     (\<exists>new. ds' = ds @ new \<and> length new = length files \<and>
        calls duration_of h' = calls duration_of h @ new)"
proof (induction files arbitrary: ds h)
  case Nil
  then show ?case by (simp add: ret_def)
next
  case (Cons f fs)
  obtain h1 r1 where b: "loop_body E x f h = (h1, r1)" by (cases "loop_body E x f h")
  show ?case
  proof (cases r1)
    case (Inl e)
    with Cons.prems b show ?thesis by (simp add: bind_def)
  next
    case (Inr dur)
    with Cons.prems b have rec: "for_loop E x fs (ds @ [dur]) h1 = (h', Inr ds')"
      by (simp add: bind_def)
    from loop_body_Inr[OF b[unfolded Inr]] obtain c m s d out rs where
      h1: "h1 = h @ [PerfCounter, GetMetadata f, RunSimulation f d,
        ResultParser out, ParseResults out, SaveResults x c m s rs, PerfCounter,
        LogInfo (FinishedSimulation c m s dur)]" by blast
    from Cons.IH[OF rec] show ?thesis
      by (auto simp: h1)
  qed
qed

lemma for_loop_Inl:
  "for_loop E x files ds h = (h', Inl e) \<Longrightarrow>
     e \<noteq> StatisticsError \<and> e \<noteq> StopIteration \<and>
     prefix (calls metadata_of h') (calls metadata_of h @ files) \<and>
     prefix (calls run_of h') (calls run_of h @ files)"
proof (induction files arbitrary: ds h)
  case Nil
  then show ?case by (simp add: ret_def)
next
  case (Cons f fs)
  obtain h1 r1 where b: "loop_body E x f h = (h1, r1)" by (cases "loop_body E x f h")
  show ?case
  proof (cases r1)
    case (Inl e1)
    with Cons.prems b have eq: "h' = h1" "e = e1" by (simp_all add: bind_def)
    from loop_body_Inl[OF b[unfolded Inl]] show ?thesis
      unfolding eq by auto
  next
    case (Inr dur)
    with Cons.prems b have rec: "for_loop E x fs (ds @ [dur]) h1 = (h', Inl e)"
      by (simp add: bind_def)
    from loop_body_Inr[OF b[unfolded Inr]] obtain c m s d out rs where
      h1: "h1 = h @ [PerfCounter, GetMetadata f, RunSimulation f d,
        ResultParser out, ParseResults out, SaveResults x c m s rs, PerfCounter,
        LogInfo (FinishedSimulation c m s dur)]" by blast
    from Cons.IH[OF rec] show ?thesis
      by (auto simp: h1)
  qed
qed




lemma summary_Nil: "summary E pr g [] h = (h @ [PerfCounter], Inl StatisticsError)"
  by (simp add: summary_def mean_def io_defs)

lemma summary_Cons:
  "ds \<noteq> [] \<Longrightarrow> summary E pr g ds h =
     (h @ [PerfCounter,
           LogInfo (Completed (perf_counter E (h @ [PerfCounter]) - g)
                      (sum_list ds / of_nat (length ds))),
           Terminate pr, LogInfo TerminatedNetuno], Inr ())"
  by (cases ds) (simp_all add: summary_def mean_def io_defs)

lemma process_files_cases:
  assumes "process_files E x pr g t0 entries h = (tr, r)"
  obtains
    (empty) "entries = []" "tr = h" "r = Inl StopIteration"
  | (first_failed) f fs e where "entries = f # fs"
      "first_simulation E x f t0 h = (tr, Inl e)" "r = Inl e"
  | (loop_failed) f fs h1 e where "entries = f # fs"
      "first_simulation E x f t0 h = (h1, Inr ())"
      "for_loop E x fs [] h1 = (tr, Inl e)" "r = Inl e"
  | (no_durations) f fs h1 h2 where "entries = f # fs"
      "first_simulation E x f t0 h = (h1, Inr ())"
      "for_loop E x fs [] h1 = (h2, Inr [])"
      "tr = h2 @ [PerfCounter]" "r = Inl StatisticsError"
  | (completed) f fs h1 h2 ds el where "entries = f # fs"
      "first_simulation E x f t0 h = (h1, Inr ())"
      "for_loop E x fs [] h1 = (h2, Inr ds)" "ds \<noteq> []"
      "tr = h2 @ [PerfCounter, LogInfo (Completed el (sum_list ds / of_nat (length ds))),
                  Terminate pr, LogInfo TerminatedNetuno]"
      "r = Inr ()"
proof (cases entries)
  case Nil
  with assms have "tr = h" "r = Inl StopIteration"
    by (simp_all add: process_files_def raise_def)
  with Nil show ?thesis by (rule empty)
next
  case (Cons f fs)
  obtain h1 r1 where f1: "first_simulation E x f t0 h = (h1, r1)"
    by (cases "first_simulation E x f t0 h")
  show ?thesis
  proof (cases r1)
    case (Inl e)
    with assms Cons f1 have "tr = h1" "r = Inl e"
      by (simp_all add: process_files_def bind_def)
    with f1 Inl have "first_simulation E x f t0 h = (tr, Inl e)" "r = Inl e" by simp_all
    with Cons show ?thesis by (rule first_failed)
  next
    case (Inr u)
    with f1 have f1': "first_simulation E x f t0 h = (h1, Inr ())" by simp
    obtain h2 r2 where f2: "for_loop E x fs [] h1 = (h2, r2)"
      by (cases "for_loop E x fs [] h1")
    show ?thesis
    proof (cases r2)
      case (Inl e)
      with assms Cons f1' f2 have "tr = h2" "r = Inl e"
        by (simp_all add: process_files_def bind_def)
      with f2 Inl have "for_loop E x fs [] h1 = (tr, Inl e)" "r = Inl e" by simp_all
      with Cons f1' show ?thesis by (rule loop_failed)
    next
      case ds: (Inr ds)
      from assms Cons f1' f2 ds have s: "summary E pr g ds h2 = (tr, r)"
        by (simp add: process_files_def bind_def)
      show ?thesis
      proof (cases "ds = []")
        case True
        with s have "tr = h2 @ [PerfCounter]" "r = Inl StatisticsError"
          by (simp_all add: summary_Nil)
        moreover from f2 ds True have "for_loop E x fs [] h1 = (h2, Inr [])" by simp
        ultimately show ?thesis using Cons f1' by (intro no_durations)
      next
        case False
        with s have "tr = h2 @ [PerfCounter,
            LogInfo (Completed (perf_counter E (h2 @ [PerfCounter]) - g)
                       (sum_list ds / of_nat (length ds))),
            Terminate pr, LogInfo TerminatedNetuno]" "r = Inr ()"
          by (simp_all add: summary_Cons)
        moreover from f2 ds have "for_loop E x fs [] h1 = (h2, Inr ds)" by simp
        ultimately show ?thesis using Cons f1' False by (intro completed)
      qed
    qed
  qed
qed

lemma main_cases:
  assumes "main E a [] = (tr, r)"
  obtains
    (launch_failed) c where
      "popen E [PerfCounter, Popen (netuno_exe_path a)] (netuno_exe_path a) = Inl c"
      "tr = [PerfCounter, Popen (netuno_exe_path a)]" "r = Inl (Raised c)"
  | (negative_wait) pr where
      "popen E [PerfCounter, Popen (netuno_exe_path a)] (netuno_exe_path a) = Inr pr"
      "tr = take 3 (started E a pr)" "r = Inl ValueError"
  | (automator_failed) pr c where
      "popen E [PerfCounter, Popen (netuno_exe_path a)] (netuno_exe_path a) = Inr pr"
      "tr = take 5 (started E a pr)" "r = Inl (Raised c)"
  | (exporter_failed) pr c where
      "popen E [PerfCounter, Popen (netuno_exe_path a)] (netuno_exe_path a) = Inr pr"
      "tr = take 6 (started E a pr)" "r = Inl (Raised c)"
  | (listdir_failed) pr c where
      "popen E [PerfCounter, Popen (netuno_exe_path a)] (netuno_exe_path a) = Inr pr"
      "listdir E (started E a pr) (precipitation_dir_path a) = Inl c"
      "tr = started E a pr" "r = Inl (Raised c)"
  | (listed) pr names g t0 where
      "popen E [PerfCounter, Popen (netuno_exe_path a)] (netuno_exe_path a) = Inr pr"
      "listdir E (started E a pr) (precipitation_dir_path a) = Inr names"
      "process_files E (parent (parent (precipitation_dir_path a))) pr g t0
         (map (child (precipitation_dir_path a)) names) (started E a pr) = (tr, r)"
proof (cases "popen E [PerfCounter, Popen (netuno_exe_path a)] (netuno_exe_path a)")
  case (Inl c)
  with assms have "tr = [PerfCounter, Popen (netuno_exe_path a)]" "r = Inl (Raised c)"
    by (simp_all add: main_def run_netuno_def io_defs)
  with Inl show ?thesis by (rule launch_failed)
next
  case pr: (Inr pr)
  show ?thesis
  proof (cases "NETUNO_STARTUP_WAIT_TIME E < 0")
    case True
    with assms pr have "tr = take 3 (started E a pr)" "r = Inl ValueError"
      by (simp_all add: main_def run_netuno_def io_defs started_def)
    with pr show ?thesis by (rule negative_wait)
  next
    case w: False
    show ?thesis
    proof (cases "new_automator E (take 5 (started E a pr))")
      case (Inl c)
      with assms pr w have "tr = take 5 (started E a pr)" "r = Inl (Raised c)"
        by (simp_all add: main_def run_netuno_def io_defs started_def)
      with pr show ?thesis by (rule automator_failed)
    next
      case au: (Inr u)
      show ?thesis
      proof (cases "new_exporter E (take 6 (started E a pr))
                      (parent (parent (precipitation_dir_path a)))")
        case (Inl c)
        with assms pr w au have "tr = take 6 (started E a pr)" "r = Inl (Raised c)"
          by (simp_all add: main_def run_netuno_def io_defs started_def)
        with pr show ?thesis by (rule exporter_failed)
      next
        case ex: (Inr u')
        show ?thesis
        proof (cases "listdir E (started E a pr) (precipitation_dir_path a)")
          case (Inl c)
          with assms pr w au ex have "tr = started E a pr" "r = Inl (Raised c)"
            by (simp_all add: main_def run_netuno_def io_defs started_def iterdir_def)
          with pr Inl show ?thesis by (rule listdir_failed)
        next
          case (Inr names)
          with assms pr w au ex have
            "process_files E (parent (parent (precipitation_dir_path a))) pr
               (perf_counter E [PerfCounter]) (perf_counter E (take 7 (started E a pr)))
               (map (child (precipitation_dir_path a)) names) (started E a pr) = (tr, r)"
            by (simp add: main_def run_netuno_def io_defs started_def iterdir_def)
          with pr Inr show ?thesis by (rule listed)
        qed
      qed
    qed
  qed
qed

lemma main_trace_outcome: "main E a [] = (trace E a, outcome E a)"
  by (simp add: trace_def outcome_def)

lemma loop_event_calls:
  "list_all (loop_event E x files) evs \<Longrightarrow>
     calls terminate_of evs = [] \<and> calls run_first_of evs = [] \<and>
     calls exporter_of evs = [] \<and> calls average_of evs = [] \<and>
     calls first_duration_of evs = []"
  by (induction evs) (auto simp: loop_event_def)

lemma for_loop_quiet:
  assumes "for_loop E x files ds h = (h', r)"
  shows "calls terminate_of h' = calls terminate_of h \<and>
         calls run_first_of h' = calls run_first_of h \<and>
         calls exporter_of h' = calls exporter_of h \<and>
         calls average_of h' = calls average_of h \<and>
         calls first_duration_of h' = calls first_duration_of h"
proof -
  from for_loop_frame[OF assms] obtain evs where
    "h' = h @ evs" "list_all (loop_event E x files) evs" by blast
  with loop_event_calls[OF this(2)] show ?thesis by simp
qed

lemma first_then_next_append:
  "first_then_next ps c (h @ k) =
     (first_then_next ps c h \<and> first_then_next ps (c \<or> calls run_first_of h \<noteq> []) k)"
  by (induction ps c h rule: first_then_next.induct) auto

lemma loop_event_first_then_next:
  "list_all (loop_event E x files) evs \<Longrightarrow> first_then_next ps True evs"
  by (induction evs) (auto simp: loop_event_def)

lemma for_loop_saves:
  "for_loop E x files ds h = (h', r) \<Longrightarrow>
   map save_key (calls save_of h) = map (\<lambda>f. (x, get_metadata E f)) (calls metadata_of h) \<Longrightarrow>
     prefix (map save_key (calls save_of h'))
            (map (\<lambda>f. (x, get_metadata E f)) (calls metadata_of h')) \<and>
     ((\<exists>v. r = Inr v) \<longrightarrow> map save_key (calls save_of h') =
            map (\<lambda>f. (x, get_metadata E f)) (calls metadata_of h'))"
proof (induction files arbitrary: ds h)
  case Nil
  then show ?case by (simp add: ret_def)
next
  case (Cons f fs)
  obtain h1 r1 where b: "loop_body E x f h = (h1, r1)" by (cases "loop_body E x f h")
  show ?case
  proof (cases r1)
    case (Inl e1)
    with Cons.prems b have eq: "h' = h1" "r = Inl e1" by (simp_all add: bind_def)
    from loop_body_Inl[OF b[unfolded Inl]] Cons.prems(2) show ?thesis
      unfolding eq by auto
  next
    case (Inr dur)
    with Cons.prems b have rec: "for_loop E x fs (ds @ [dur]) h1 = (h', r)"
      by (simp add: bind_def)
    from loop_body_Inr[OF b[unfolded Inr]] obtain c m s d out rs where
      h1: "h1 = h @ [PerfCounter, GetMetadata f, RunSimulation f d,
        ResultParser out, ParseResults out, SaveResults x c m s rs, PerfCounter,
        LogInfo (FinishedSimulation c m s dur)]" and md: "get_metadata E f = Inr (c, m, s)"
      by blast
    have "map save_key (calls save_of h1) =
          map (\<lambda>f. (x, get_metadata E f)) (calls metadata_of h1)"
      using Cons.prems(2) by (simp add: h1 md)
    from Cons.IH[OF rec this] show ?thesis .
  qed
qed

lemma main_reached:
  assumes "main E a [] = (tr, r)" and "r = Inr () \<or> r = Inl StatisticsError"
  shows "\<exists>pr n ns d. listdir E (started E a pr) (precipitation_dir_path a) = Inr (n # ns) \<and>
     calls run_first_of tr =
       [(child (precipitation_dir_path a) n, d, SIMULATION_PARAMETERS E)] \<and>
     map fst (calls run_simulation_of tr) = map (child (precipitation_dir_path a)) ns \<and>
     calls metadata_of tr = map (child (precipitation_dir_path a)) (n # ns) \<and>
     calls run_of tr = map (child (precipitation_dir_path a)) (n # ns)"
  using assms(1)
proof (cases rule: main_cases)
  case (listed pr names g t0)
  from listed(3) show ?thesis
  proof (cases rule: process_files_cases)
    case empty
    with assms(2) show ?thesis by simp
  next
    case (first_failed f fs e)
    with first_simulation_Inl[OF first_failed(2)] assms(2) show ?thesis by auto
  next
    case (loop_failed f fs h1 e)
    with for_loop_Inl[OF loop_failed(3)] assms(2) show ?thesis by auto
  next
    case (no_durations f fs h1 h2)
    from no_durations(1) obtain n ns where n: "names = n # ns"
      "f = child (precipitation_dir_path a) n" "fs = map (child (precipitation_dir_path a)) ns"
      by auto
    from first_simulation_Inr[OF no_durations(2)] obtain d where
      h1: "calls run_first_of h1 = [(f, d, SIMULATION_PARAMETERS E)]"
      "calls run_simulation_of h1 = []" "calls metadata_of h1 = [f]" "calls run_of h1 = [f]"
      by (auto simp: started_def)
    from for_loop_Inr[OF no_durations(3)] for_loop_quiet[OF no_durations(3)] h1 n
      listed(2) no_durations(4)
    show ?thesis
      by (intro exI[of _ pr] exI[of _ n] exI[of _ ns] exI[of _ d]) simp
  next
    case (completed f fs h1 h2 ds el)
    from completed(1) obtain n ns where n: "names = n # ns"
      "f = child (precipitation_dir_path a) n" "fs = map (child (precipitation_dir_path a)) ns"
      by auto
    from first_simulation_Inr[OF completed(2)] obtain d where
      h1: "calls run_first_of h1 = [(f, d, SIMULATION_PARAMETERS E)]"
      "calls run_simulation_of h1 = []" "calls metadata_of h1 = [f]" "calls run_of h1 = [f]"
      by (auto simp: started_def)
    from for_loop_Inr[OF completed(3)] for_loop_quiet[OF completed(3)] h1 n
      listed(2) completed(5)
    show ?thesis
      by (intro exI[of _ pr] exI[of _ n] exI[of _ ns] exI[of _ d]) simp
  qed
qed (use assms(2) in auto)


lemma first_simulation_quiet:
  assumes "first_simulation E x f t0 h = (h', r)"
  shows "calls terminate_of h' = calls terminate_of h \<and>
         calls run_simulation_of h' = calls run_simulation_of h \<and>
         calls exporter_of h' = calls exporter_of h \<and>
         calls average_of h' = calls average_of h \<and>
         calls duration_of h' = calls duration_of h \<and>
         calls metadata_of h' = calls metadata_of h @ [f] \<and>
         ((calls run_first_of h' = calls run_first_of h \<and> calls run_of h' = calls run_of h) \<or>
          (\<exists>d. calls run_first_of h' = calls run_first_of h @ [(f, d, SIMULATION_PARAMETERS E)] \<and>
                calls run_of h' = calls run_of h @ [f])) \<and>
         (calls save_of h' = calls save_of h \<or>
          (\<exists>c m s. get_metadata E f = Inr (c, m, s) \<and>
                calls save_of h' = calls save_of h @ [(x, c, m, s)]))"
proof (cases r)
  case (Inl e)
  from first_simulation_Inl[OF assms[unfolded Inl]] show ?thesis by auto
next
  case (Inr u)
  from first_simulation_Inr[OF assms[unfolded Inr]] show ?thesis by auto
qed

lemma started_calls:
  "calls terminate_of (take k (started E a pr)) = []"
  "calls run_of (take k (started E a pr)) = []"
  "calls run_first_of (take k (started E a pr)) = []"
  "calls run_simulation_of (take k (started E a pr)) = []"
  "calls metadata_of (take k (started E a pr)) = []"
  "calls save_of (take k (started E a pr)) = []"
  "calls average_of (take k (started E a pr)) = []"
  "calls duration_of (take k (started E a pr)) = []"
  "calls first_duration_of (take k (started E a pr)) = []"
  by (simp_all add: started_def take_Cons')

lemma started_calls_all:
  "calls terminate_of (started E a pr) = []"
  "calls run_of (started E a pr) = []"
  "calls run_first_of (started E a pr) = []"
  "calls run_simulation_of (started E a pr) = []"
  "calls metadata_of (started E a pr) = []"
  "calls save_of (started E a pr) = []"
  "calls average_of (started E a pr) = []"
  "calls duration_of (started E a pr) = []"
  "calls first_duration_of (started E a pr) = []"
  by (simp_all add: started_def)

lemma main_terminate:
  assumes "main E a [] = (tr, r)"
  shows "(r = Inr () \<longrightarrow>
           (\<exists>p. popen E [PerfCounter, Popen (netuno_exe_path a)] (netuno_exe_path a) = Inr p \<and>
                calls terminate_of tr = [p])) \<and>
         ((\<exists>e. r = Inl e) \<longrightarrow> calls terminate_of tr = [])"
  using assms
proof (cases rule: main_cases)
  case (listed pr names g t0)
  from listed(3) show ?thesis
  proof (cases rule: process_files_cases)
    case empty
    then show ?thesis by (simp add: started_calls_all)
  next
    case (first_failed f fs e)
    with first_simulation_quiet[OF first_failed(2)] show ?thesis
      by (simp add: started_calls_all)
  next
    case (loop_failed f fs h1 e)
    with first_simulation_quiet[OF loop_failed(2)] for_loop_quiet[OF loop_failed(3)]
    show ?thesis by (simp add: started_calls_all)
  next
    case (no_durations f fs h1 h2)
    with first_simulation_quiet[OF no_durations(2)] for_loop_quiet[OF no_durations(3)]
    show ?thesis by (simp add: started_calls_all)
  next
    case (completed f fs h1 h2 ds el)
    with first_simulation_quiet[OF completed(2)] for_loop_quiet[OF completed(3)] listed(1)
    show ?thesis by (simp add: started_calls_all)
  qed
qed (simp_all add: started_calls started_calls_all)

lemma started_first_then_next: "first_then_next ps False (started E a pr)"
  by (simp add: started_def)

lemma first_simulation_first_then_next:
  assumes "first_simulation E x f t0 h = (h', r)"
    and "calls run_first_of h = []" and "first_then_next (SIMULATION_PARAMETERS E) False h"
  shows "first_then_next (SIMULATION_PARAMETERS E) False h' \<and>
         length (calls run_first_of h') \<le> 1 \<and>
         (\<forall>(g, d, ps) \<in> set (calls run_first_of h'). ps = SIMULATION_PARAMETERS E) \<and>
         ((\<exists>u. r = Inr u) \<longrightarrow>
            (\<exists>d. calls run_first_of h' = [(f, d, SIMULATION_PARAMETERS E)]))"
proof (cases r)
  case (Inl e)
  from first_simulation_Inl[OF assms(1)[unfolded Inl]] assms(2,3) Inl show ?thesis
    by (auto simp: first_then_next_append)
next
  case (Inr u)
  from first_simulation_Inr[OF assms(1)[unfolded Inr]] assms(2,3) show ?thesis
    by (auto simp: first_then_next_append)
qed

lemma for_loop_first_then_next:
  assumes "for_loop E x files ds h = (h', r)"
    and "first_then_next ps False h" and "calls run_first_of h \<noteq> []"
  shows "first_then_next ps False h'"
proof -
  from for_loop_frame[OF assms(1)] obtain evs where
    "h' = h @ evs" "list_all (loop_event E x files) evs" by blast
  with loop_event_first_then_next[OF this(2)] assms(2,3) show ?thesis
    by (simp add: first_then_next_append)
qed

lemma loop_event_dates:
  "list_all (loop_event E x files) evs \<Longrightarrow>
     \<forall>(f, d) \<in> set (calls run_simulation_of evs).
        \<exists>c m s. get_metadata E f = Inr (c, m, s) \<and> INITIAL_DATES E s = Some d"
  by (induction evs) (auto simp: loop_event_def)

lemma main_first_then_next:
  assumes "main E a [] = (tr, r)"
  shows "first_then_next (SIMULATION_PARAMETERS E) False tr \<and>
         length (calls run_first_of tr) \<le> 1 \<and>
         (\<forall>(f, d, ps) \<in> set (calls run_first_of tr). ps = SIMULATION_PARAMETERS E)"
  using assms
proof (cases rule: main_cases)
  case (listed pr names g t0)
  note s = started_first_then_next[of "SIMULATION_PARAMETERS E" E a pr]
    started_calls_all(3)[of E a pr]
  from listed(3) show ?thesis
  proof (cases rule: process_files_cases)
    case empty
    with s show ?thesis by simp
  next
    case (first_failed f fs e)
    from first_simulation_first_then_next[OF first_failed(2) s(2) s(1)] show ?thesis
      by simp
  next
    case (loop_failed f fs h1 e)
    from first_simulation_first_then_next[OF loop_failed(2) s(2) s(1)] obtain d where
      h1: "first_then_next (SIMULATION_PARAMETERS E) False h1"
      "calls run_first_of h1 = [(f, d, SIMULATION_PARAMETERS E)]" by auto
    from for_loop_first_then_next[OF loop_failed(3) h1(1)] for_loop_quiet[OF loop_failed(3)] h1
    show ?thesis by simp
  next
    case (no_durations f fs h1 h2)
    from first_simulation_first_then_next[OF no_durations(2) s(2) s(1)] obtain d where
      h1: "first_then_next (SIMULATION_PARAMETERS E) False h1"
      "calls run_first_of h1 = [(f, d, SIMULATION_PARAMETERS E)]" by auto
    from for_loop_first_then_next[OF no_durations(3) h1(1)] for_loop_quiet[OF no_durations(3)]
      h1 no_durations(4)
    show ?thesis by (simp add: first_then_next_append)
  next
    case (completed f fs h1 h2 ds el)
    from first_simulation_first_then_next[OF completed(2) s(2) s(1)] obtain d where
      h1: "first_then_next (SIMULATION_PARAMETERS E) False h1"
      "calls run_first_of h1 = [(f, d, SIMULATION_PARAMETERS E)]" by auto
    from for_loop_first_then_next[OF completed(3) h1(1)] for_loop_quiet[OF completed(3)]
      h1 completed(5)
    show ?thesis by (simp add: first_then_next_append)
  qed
qed (simp_all add: started_def)

lemma main_run_dates:
  assumes "main E a [] = (tr, r)"
  shows "\<forall>(f, d) \<in> set (calls run_simulation_of tr).
           \<exists>c m s. get_metadata E f = Inr (c, m, s) \<and> INITIAL_DATES E s = Some d"
  using assms
proof (cases rule: main_cases)
  case (listed pr names g t0)
  have loop: "\<forall>(f, d) \<in> set (calls run_simulation_of h2).
           \<exists>c m s. get_metadata E f = Inr (c, m, s) \<and> INITIAL_DATES E s = Some d"
    if "first_simulation E x f t0 (started E a pr) = (h1, r1)"
      and "for_loop E x fs [] h1 = (h2, r2)" for x f h1 r1 fs h2 r2
  proof -
    from for_loop_frame[OF that(2)] obtain evs where
      evs: "h2 = h1 @ evs" "list_all (loop_event E x fs) evs" by blast
    from first_simulation_quiet[OF that(1)] loop_event_dates[OF evs(2)] evs(1)
    show ?thesis by (simp add: started_calls_all)
  qed
  from listed(3) show ?thesis
  proof (cases rule: process_files_cases)
    case empty
    then show ?thesis by (simp add: started_calls_all)
  next
    case (first_failed f fs e)
    from first_simulation_quiet[OF first_failed(2)] show ?thesis
      by (simp add: started_calls_all)
  next
    case (loop_failed f fs h1 e)
    from loop[OF loop_failed(2,3)] show ?thesis .
  next
    case (no_durations f fs h1 h2)
    from loop[OF no_durations(2,3)] no_durations(4) show ?thesis by simp
  next
    case (completed f fs h1 h2 ds el)
    from loop[OF completed(2,3)] completed(5) show ?thesis by simp
  qed
qed (simp_all add: started_calls started_calls_all)


lemma main_single_file:
  assumes "main E a [] = (tr, r)"
    and "\<forall>h. listdir E h (precipitation_dir_path a) = Inr [n]"
  shows "r \<noteq> Inr () \<and> calls average_of tr = [] \<and> calls run_simulation_of tr = []"
  using assms(1)
proof (cases rule: main_cases)
  case (listed pr names g t0)
  from listed(2) assms(2) have names: "names = [n]" by simp
  from listed(3) show ?thesis
  proof (cases rule: process_files_cases)
    case empty
    then show ?thesis by (simp add: started_calls_all)
  next
    case (first_failed f fs e)
    with first_simulation_quiet[OF first_failed(2)] show ?thesis
      by (simp add: started_calls_all)
  next
    case (loop_failed f fs h1 e)
    with names show ?thesis by (simp add: ret_def)
  next
    case (no_durations f fs h1 h2)
    with names have "h2 = h1" by (simp add: ret_def)
    with first_simulation_quiet[OF no_durations(2)] no_durations(4,5) show ?thesis
      by (simp add: started_calls_all)
  next
    case (completed f fs h1 h2 ds el)
    with names show ?thesis by (simp add: ret_def)
  qed
qed (simp_all add: started_calls started_calls_all)

lemma main_empty_directory:
  assumes "main E a [] = (tr, r)"
    and "\<forall>h. listdir E h (precipitation_dir_path a) = Inr []"
  shows "calls run_first_of tr = [] \<and> calls run_simulation_of tr = [] \<and> r \<noteq> Inr () \<and>
         (Listdir (precipitation_dir_path a) \<in> set tr \<longrightarrow> r = Inl StopIteration)"
  using assms(1)
proof (cases rule: main_cases)
  case (listed pr names g t0)
  from listed(2) assms(2) have names: "names = []" by simp
  from listed(3) names show ?thesis
    by (cases rule: process_files_cases) (simp_all add: started_calls_all)
next
  case (listdir_failed pr c)
  with assms(2) show ?thesis by simp
qed (simp_all add: started_def)

lemma for_loop_run_after_metadata:
  "for_loop E x files ds h = (h', r) \<Longrightarrow> calls run_of h = calls metadata_of h \<Longrightarrow>
     prefix (calls run_of h') (calls metadata_of h')"
proof (induction files arbitrary: ds h)
  case Nil
  then show ?case by (simp add: ret_def)
next
  case (Cons f fs)
  obtain h1 r1 where b: "loop_body E x f h = (h1, r1)" by (cases "loop_body E x f h")
  show ?case
  proof (cases r1)
    case (Inl e1)
    with Cons.prems b have eq: "h' = h1" by (simp add: bind_def)
    from loop_body_Inl[OF b[unfolded Inl]] Cons.prems(2) show ?thesis
      unfolding eq by auto
  next
    case (Inr dur)
    with Cons.prems b have rec: "for_loop E x fs (ds @ [dur]) h1 = (h', r)"
      by (simp add: bind_def)
    from loop_body_Inr[OF b[unfolded Inr]] Cons.prems(2)
    have "calls run_of h1 = calls metadata_of h1" by auto
    from Cons.IH[OF rec this] show ?thesis .
  qed
qed

lemma for_loop_prefix:
  assumes "for_loop E x files ds h = (h', r)"
  shows "prefix (calls metadata_of h') (calls metadata_of h @ files) \<and>
         prefix (calls run_of h') (calls run_of h @ files)"
proof (cases r)
  case (Inl e)
  from for_loop_Inl[OF assms[unfolded Inl]] show ?thesis by simp
next
  case (Inr v)
  from for_loop_Inr[OF assms[unfolded Inr]] show ?thesis by simp
qed

lemma main_order:
  assumes "main E a [] = (tr, r)"
    and "\<forall>h. listdir E h (precipitation_dir_path a) = Inr names"
  shows "prefix (calls metadata_of tr) (map (child (precipitation_dir_path a)) names) \<and>
         prefix (calls run_of tr) (map (child (precipitation_dir_path a)) names) \<and>
         prefix (calls run_of tr) (calls metadata_of tr) \<and>
         map fst (calls run_first_of tr) = take 1 (calls run_of tr)"
  using assms(1)
proof (cases rule: main_cases)
  case (listed pr ns g t0)
  from listed(2) assms(2) have names: "ns = names" by simp
  have loop: "prefix (calls metadata_of h2) (f # fs) \<and> prefix (calls run_of h2) (f # fs) \<and>
      prefix (calls run_of h2) (calls metadata_of h2) \<and>
      map fst (calls run_first_of h2) = take 1 (calls run_of h2)"
    if "first_simulation E x f t0 (started E a pr) = (h1, Inr ())"
      and "for_loop E x fs [] h1 = (h2, r2)" for x f h1 fs h2 r2
  proof -
    from first_simulation_Inr[OF that(1)] obtain d where
      h1: "calls metadata_of h1 = [f]" "calls run_of h1 = [f]"
      "calls run_first_of h1 = [(f, d, SIMULATION_PARAMETERS E)]"
      by (auto simp: started_def)
    from for_loop_prefix[OF that(2)] have
      p: "prefix (calls metadata_of h2) (f # fs)" "prefix (calls run_of h2) (f # fs)"
      using h1 by simp_all
    from for_loop_frame[OF that(2)] obtain evs where "h2 = h1 @ evs" by blast
    with h1 have "take 1 (calls run_of h2) = [f]" by simp
    with p for_loop_run_after_metadata[OF that(2)] for_loop_quiet[OF that(2)] h1
    show ?thesis by simp
  qed
  from listed(3) show ?thesis
  proof (cases rule: process_files_cases)
    case empty
    then show ?thesis by (simp add: started_calls_all)
  next
    case (first_failed f fs e)
    from first_failed(1) names have "map (child (precipitation_dir_path a)) names = f # fs"
      by simp
    with first_simulation_quiet[OF first_failed(2)] show ?thesis
      by (auto simp: started_calls_all)
  next
    case (loop_failed f fs h1 e)
    from loop_failed(1) names have "map (child (precipitation_dir_path a)) names = f # fs"
      by simp
    with loop[OF loop_failed(2,3)] show ?thesis by simp
  next
    case (no_durations f fs h1 h2)
    from no_durations(1) names have "map (child (precipitation_dir_path a)) names = f # fs"
      by simp
    with loop[OF no_durations(2,3)] no_durations(4) show ?thesis by simp
  next
    case (completed f fs h1 h2 ds el)
    from completed(1) names have "map (child (precipitation_dir_path a)) names = f # fs"
      by simp
    with loop[OF completed(2,3)] completed(5) show ?thesis by simp
  qed
qed (simp_all add: started_calls started_calls_all)

lemma main_saves:
  assumes "main E a [] = (tr, r)"
  shows "(calls exporter_of tr = [] \<or>
          calls exporter_of tr = [parent (parent (precipitation_dir_path a))]) \<and>
         prefix (map save_key (calls save_of tr))
           (map (\<lambda>f. (parent (parent (precipitation_dir_path a)), get_metadata E f))
              (calls metadata_of tr)) \<and>
         (r = Inr () \<or> r = Inl StatisticsError \<longrightarrow>
            map save_key (calls save_of tr) =
            map (\<lambda>f. (parent (parent (precipitation_dir_path a)), get_metadata E f))
              (calls metadata_of tr))"
  using assms
proof (cases rule: main_cases)
  case (listed pr ns g t0)
  have ex: "calls exporter_of (started E a pr) = [parent (parent (precipitation_dir_path a))]"
    by (simp add: started_def)
  have loop: "calls exporter_of h2 = [parent (parent (precipitation_dir_path a))] \<and>
      prefix (map save_key (calls save_of h2))
        (map (\<lambda>f. (parent (parent (precipitation_dir_path a)), get_metadata E f))
           (calls metadata_of h2)) \<and>
      ((\<exists>v. r2 = Inr v) \<longrightarrow> map save_key (calls save_of h2) =
        map (\<lambda>f. (parent (parent (precipitation_dir_path a)), get_metadata E f))
           (calls metadata_of h2))"
    if "first_simulation E (parent (parent (precipitation_dir_path a))) f t0
          (started E a pr) = (h1, Inr ())"
      and "for_loop E (parent (parent (precipitation_dir_path a))) fs [] h1 = (h2, r2)"
    for f h1 fs h2 r2
  proof -
    from first_simulation_Inr[OF that(1)] have
      "map save_key (calls save_of h1) =
       map (\<lambda>f. (parent (parent (precipitation_dir_path a)), get_metadata E f))
         (calls metadata_of h1)"
      by (auto simp: started_def)
    from for_loop_saves[OF that(2) this] for_loop_quiet[OF that(2)]
      first_simulation_quiet[OF that(1)] ex
    show ?thesis by simp
  qed
  from listed(3) show ?thesis
  proof (cases rule: process_files_cases)
    case empty
    with ex show ?thesis by (simp add: started_calls_all)
  next
    case (first_failed f fs e)
    from first_simulation_Inl[OF first_failed(2)] first_simulation_quiet[OF first_failed(2)]
      ex first_failed(3)
    show ?thesis by (auto simp: started_calls_all)
  next
    case (loop_failed f fs h1 e)
    from loop[OF loop_failed(2,3)] for_loop_Inl[OF loop_failed(3)] loop_failed(4)
    show ?thesis by simp
  next
    case (no_durations f fs h1 h2)
    from loop[OF no_durations(2,3)] no_durations(4) show ?thesis by simp
  next
    case (completed f fs h1 h2 ds el)
    from loop[OF completed(2,3)] completed(5) show ?thesis by simp
  qed
qed (simp_all add: started_def)

lemma first_then_next_True:
  "first_then_next ps True h \<Longrightarrow>
     calls run_first_of h = [] \<and> calls run_of h = map fst (calls run_simulation_of h)"
  by (induction ps True h rule: first_then_next.induct) auto

lemma first_then_next_False:
  "first_then_next ps False h \<Longrightarrow>
     calls run_of h = map fst (calls run_first_of h) @ map fst (calls run_simulation_of h)"
  by (induction ps False h rule: first_then_next.induct) (auto dest: first_then_next_True)

lemma main_run_bounds:
  assumes "main E a [] = (tr, r)"
    and "\<forall>h. listdir E h (precipitation_dir_path a) = Inr names"
    and "names \<noteq> []"
  shows "prefix (map fst (calls run_first_of tr)) [child (precipitation_dir_path a) (hd names)] \<and>
         prefix (map fst (calls run_simulation_of tr))
           (map (child (precipitation_dir_path a)) (tl names))"
proof -
  let ?R = "calls run_of tr"
  from main_order[OF assms(1,2)] have
    p: "prefix ?R (map (child (precipitation_dir_path a)) names)"
    and f: "map fst (calls run_first_of tr) = take 1 ?R" by simp_all
  from main_first_then_next[OF assms(1)] have
    "first_then_next (SIMULATION_PARAMETERS E) False tr" by simp
  from first_then_next_False[OF this] f have
    s: "?R = take 1 ?R @ map fst (calls run_simulation_of tr)" by simp
  from assms(3) obtain n ns where names: "names = n # ns" by (cases names) auto
  show ?thesis
  proof (cases ?R)
    case Nil
    with f s show ?thesis by simp
  next
    case (Cons x xs)
    with s have "map fst (calls run_simulation_of tr) = xs" by simp
    with p f Cons names show ?thesis by simp
  qed
qed

section \<open>The concrete executions evaluated\<close>

lemmas run_defs = main_def process_files_def summary_def first_simulation_def loop_body_def
  run_netuno_def iterdir_def mean_def io_defs trace_def outcome_def

lemmas demo_defs = demo_env_def demo_args_def demo_metadata_def three_files_def

lemma demo_listing: "\<forall>h. listdir (demo_env names) h p = Inr names"
  by (simp add: demo_env_def)

lemma three_files_outcome: "outcome (demo_env three_files) demo_args = Inr ()"
  by (simp add: run_defs demo_defs)

lemma three_files_reaches_summary: "reaches_summary (demo_env three_files) demo_args"
  by (simp add: reaches_summary_def three_files_outcome)

section \<open>One first run, then one run per remaining file\<close>

text \<open>
  C1: when the input directory yields N >= 1 files, an execution that reaches the summary
  (nothing raised before it) has called \<open>run_first_simulation\<close> exactly once, on the first
  file in iteration order, and \<open>run_simulation\<close> exactly N - 1 times, once for each
  remaining file, in order. An execution that stops earlier has made an initial part of
  these calls: never a second first run, never a run on another file.
\<close>

theorem run_calls_per_file:
  assumes "\<forall>h. listdir E h (precipitation_dir_path a) = Inr names"
    and "names \<noteq> []"
  shows "prefix (map fst (calls run_first_of (trace E a)))
           [child (precipitation_dir_path a) (hd names)] \<and>
         prefix (map fst (calls run_simulation_of (trace E a)))
           (map (child (precipitation_dir_path a)) (tl names)) \<and>
         (reaches_summary E a \<longrightarrow>
            map fst (calls run_first_of (trace E a)) =
              [child (precipitation_dir_path a) (hd names)] \<and>
            map fst (calls run_simulation_of (trace E a)) =
              map (child (precipitation_dir_path a)) (tl names) \<and>
            length (calls run_first_of (trace E a)) = 1 \<and>
            length (calls run_simulation_of (trace E a)) = length names - 1)"
proof -
  have "map fst (calls run_first_of (trace E a)) =
              [child (precipitation_dir_path a) (hd names)] \<and>
            map fst (calls run_simulation_of (trace E a)) =
              map (child (precipitation_dir_path a)) (tl names) \<and>
            length (calls run_first_of (trace E a)) = 1 \<and>
            length (calls run_simulation_of (trace E a)) = length names - 1"
    if "reaches_summary E a"
  proof -
    from that have "outcome E a = Inr () \<or> outcome E a = Inl StatisticsError"
      by (simp add: reaches_summary_def)
    from main_reached[OF main_trace_outcome this] assms(1) obtain n ns d where
      *: "names = n # ns"
      "calls run_first_of (trace E a) =
         [(child (precipitation_dir_path a) n, d, SIMULATION_PARAMETERS E)]"
      "map fst (calls run_simulation_of (trace E a)) =
         map (child (precipitation_dir_path a)) ns"
      by auto
    from *(3) have "length (calls run_simulation_of (trace E a)) = length ns"
      by (metis length_map)
    with * show ?thesis by simp
  qed
  with main_run_bounds[OF main_trace_outcome assms] show ?thesis by blast
qed

theorem run_calls_per_file_witness:
  "reaches_summary (demo_env three_files) demo_args \<and>
   map fst (calls run_first_of (trace (demo_env three_files) demo_args)) =
     [child demo_dir ''a.csv''] \<and>
   map fst (calls run_simulation_of (trace (demo_env three_files) demo_args)) =
     [child demo_dir ''b.csv'', child demo_dir ''notes.txt''] \<and>
   length (calls run_simulation_of (trace (demo_env three_files) demo_args)) = 2"
  using run_calls_per_file
          [where E = "demo_env three_files" and a = demo_args and names = three_files]
    demo_listing three_files_reaches_summary
  by (simp add: demo_args_def demo_dir_def three_files_def)

section \<open>Termination of the process\<close>

text \<open>
  C2, as the code has it: \<open>netuno_process.terminate\<close> is the last statement but one of
  \<open>main\<close> and nothing guards it. It is called exactly once, on the launched process, when
  \<open>main\<close> returns normally; it is not called at all when the launch failed, nor on any exit
  path where the set-up, metadata extraction, a date lookup, a run call, result parsing or
  export raises.
\<close>

theorem terminate_only_after_summary:
  "(outcome E a = Inr () \<longrightarrow>
      (\<exists>p. popen E [PerfCounter, Popen (netuno_exe_path a)] (netuno_exe_path a) = Inr p \<and>
           calls terminate_of (trace E a) = [p])) \<and>
   (\<forall>e. outcome E a = Inl e \<and> e \<noteq> StatisticsError \<longrightarrow>
      calls terminate_of (trace E a) = []) \<and>
   ((\<exists>c. popen E [PerfCounter, Popen (netuno_exe_path a)] (netuno_exe_path a) = Inl c) \<longrightarrow>
      calls terminate_of (trace E a) = [])"
proof -
  have "(\<exists>c. popen E [PerfCounter, Popen (netuno_exe_path a)] (netuno_exe_path a) = Inl c) \<longrightarrow>
      calls terminate_of (trace E a) = []"
    using main_trace_outcome[of E a]
    by (cases rule: main_cases) auto
  with main_terminate[OF main_trace_outcome, of E a] show ?thesis by auto
qed

theorem terminate_only_after_summary_witness:
  "outcome (demo_env three_files) demo_args = Inr () \<and>
   calls terminate_of (trace (demo_env three_files) demo_args) = [Proc 4242] \<and>
   outcome (demo_env []) demo_args = Inl StopIteration \<and>
   calls terminate_of (trace (demo_env []) demo_args) = [] \<and>
   popen missing_exe_env [PerfCounter, Popen (netuno_exe_path demo_args)]
     (netuno_exe_path demo_args) = Inl ''FileNotFoundError'' \<and>
   calls terminate_of (trace missing_exe_env demo_args) = []"
proof -
  have a: "outcome (demo_env []) demo_args = Inl StopIteration"
    by (simp add: run_defs demo_defs)
  have b: "popen (demo_env three_files) [PerfCounter, Popen (netuno_exe_path demo_args)]
      (netuno_exe_path demo_args) = Inr (Proc 4242)"
    by (simp add: demo_env_def)
  have c: "popen missing_exe_env [PerfCounter, Popen (netuno_exe_path demo_args)]
     (netuno_exe_path demo_args) = Inl ''FileNotFoundError''"
    by (simp add: missing_exe_env_def)
  from terminate_only_after_summary[of "demo_env three_files" demo_args]
    terminate_only_after_summary[of "demo_env []" demo_args]
    terminate_only_after_summary[of missing_exe_env demo_args]
    three_files_outcome a b c
  show ?thesis by auto
qed

text \<open>
  C2 as stated fails: the process is launched, result parsing raises, and the process is
  never terminated.
\<close>

theorem no_terminate_after_parse_failure:
  "popen parse_failure_env [PerfCounter, Popen (netuno_exe_path demo_args)]
     (netuno_exe_path demo_args) = Inr (Proc 4242) \<and>
   outcome parse_failure_env demo_args = Inl (Raised ''ResultParseError'') \<and>
   calls terminate_of (trace parse_failure_env demo_args) = []"
  by (simp add: run_defs demo_defs parse_failure_env_def)

section \<open>The parameters are applied at the first run only\<close>

text \<open>
  C6: in every execution the Driver calls follow one pattern: at most one
  \<open>run_first_simulation\<close> call, which receives the whole of \<open>SIMULATION_PARAMETERS\<close> and
  precedes every \<open>run_simulation\<close> call; a \<open>run_simulation\<close> call receives only the file
  and the start date \<open>INITIAL_DATES[scenario]\<close> of that file. An execution that reaches the
  summary has made exactly one \<open>run_first_simulation\<close> call.
\<close>

theorem parameters_passed_to_first_run_only:
  "first_then_next (SIMULATION_PARAMETERS E) False (trace E a) \<and>
   length (calls run_first_of (trace E a)) \<le> 1 \<and>
   (\<forall>(f, d, ps) \<in> set (calls run_first_of (trace E a)). ps = SIMULATION_PARAMETERS E) \<and>
   (\<forall>(f, d) \<in> set (calls run_simulation_of (trace E a)).
      \<exists>c m s. get_metadata E f = Inr (c, m, s) \<and> INITIAL_DATES E s = Some d) \<and>
   (reaches_summary E a \<longrightarrow>
      (\<exists>f d. calls run_first_of (trace E a) = [(f, d, SIMULATION_PARAMETERS E)]))"
proof -
  have "\<exists>f d. calls run_first_of (trace E a) = [(f, d, SIMULATION_PARAMETERS E)]"
    if "reaches_summary E a"
  proof -
    from that have "outcome E a = Inr () \<or> outcome E a = Inl StatisticsError"
      by (simp add: reaches_summary_def)
    from main_reached[OF main_trace_outcome this] show ?thesis by blast
  qed
  with main_first_then_next[OF main_trace_outcome, of E a]
    main_run_dates[OF main_trace_outcome, of E a]
  show ?thesis by blast
qed

theorem parameters_passed_to_first_run_only_witness:
  "reaches_summary (demo_env three_files) demo_args \<and>
   first_then_next [(''catchment_area'', ''100''), (''tank_capacity'', ''5000'')] False
     (trace (demo_env three_files) demo_args) \<and>
   (\<exists>f d. calls run_first_of (trace (demo_env three_files) demo_args) =
      [(f, d, [(''catchment_area'', ''100''), (''tank_capacity'', ''5000'')])])"
  using parameters_passed_to_first_run_only [of "demo_env three_files" demo_args]
    three_files_reaches_summary
  by (simp add: demo_env_def)

section \<open>An empty input directory\<close>

text \<open>
  C3, as the code has it: when the input directory yields no entry, \<open>main\<close> makes no Driver
  run call (neither \<open>run_first_simulation\<close> nor \<open>run_simulation\<close>) and does not return
  normally; once the directory has been listed, the failure is the \<open>StopIteration\<close> that
  \<open>next(path_iterator)\<close> raises.
\<close>

theorem empty_directory_stops_iteration:
  assumes "\<forall>h. listdir E h (precipitation_dir_path a) = Inr []"
  shows "calls run_first_of (trace E a) = [] \<and>
         calls run_simulation_of (trace E a) = [] \<and>
         outcome E a \<noteq> Inr () \<and>
         (Listdir (precipitation_dir_path a) \<in> set (trace E a) \<longrightarrow>
            outcome E a = Inl StopIteration)"
  using main_empty_directory [OF main_trace_outcome assms] .

theorem empty_directory_stops_iteration_witness:
  "Listdir (precipitation_dir_path demo_args) \<in> set (trace (demo_env []) demo_args) \<and>
   outcome (demo_env []) demo_args = Inl StopIteration \<and>
   calls run_first_of (trace (demo_env []) demo_args) = [] \<and>
   calls run_simulation_of (trace (demo_env []) demo_args) = []"
proof -
  have "Listdir (precipitation_dir_path demo_args) \<in> set (trace (demo_env []) demo_args)"
    by (simp add: run_defs demo_defs)
  with empty_directory_stops_iteration [OF demo_listing, of demo_args] show ?thesis
    by simp
qed

text \<open>
  C3 as stated fails: on an empty directory the exception that leaves \<open>main\<close> is
  \<open>StopIteration\<close>, not \<open>MissingInputDataError\<close>.
\<close>

theorem empty_directory_not_missing_input_data:
  "outcome (demo_env []) demo_args = Inl StopIteration \<and>
   outcome (demo_env []) demo_args \<noteq> Inl (Raised ''MissingInputDataError'')"
  by (simp add: run_defs demo_defs)

section \<open>The mean iteration duration\<close>



section \<open>A directory with a single file\<close>

text \<open>
  C5 fails on the code: with exactly one file the loop appends no duration, and
  \<open>statistics.mean\<close> of the empty list raises \<open>StatisticsError\<close> inside the summary. In no
  execution on such a directory does \<open>main\<close> return or report a mean.
\<close>

theorem single_file_never_completes:
  assumes "\<forall>h. listdir E h (precipitation_dir_path a) = Inr [n]"
  shows "outcome E a \<noteq> Inr () \<and> calls average_of (trace E a) = [] \<and>
         (reaches_summary E a \<longrightarrow> outcome E a = Inl StatisticsError)"
  using main_single_file [OF main_trace_outcome assms]
  by (auto simp: reaches_summary_def)

theorem single_file_never_completes_witness:
  "outcome (demo_env [''CityA_ModelB_ScenarioC.csv'']) demo_args = Inl StatisticsError \<and>
   calls average_of (trace (demo_env [''CityA_ModelB_ScenarioC.csv'']) demo_args) = [] \<and>
   calls terminate_of (trace (demo_env [''CityA_ModelB_ScenarioC.csv'']) demo_args) = []"
proof -
  have "outcome (demo_env [''CityA_ModelB_ScenarioC.csv'']) demo_args = Inl StatisticsError"
    by (simp add: run_defs demo_defs)
  moreover have
    "calls terminate_of (trace (demo_env [''CityA_ModelB_ScenarioC.csv'']) demo_args) = []"
    by (simp add: run_defs demo_defs)
  ultimately show ?thesis
    using single_file_never_completes
            [where E = "demo_env [''CityA_ModelB_ScenarioC.csv'']" and a = demo_args
               and n = "''CityA_ModelB_ScenarioC.csv''"]
          demo_listing
    by simp
qed

section \<open>The export root\<close>

text \<open>
  C7: the one \<open>Exporter\<close> of an execution is constructed with the grandparent of the
  precipitation directory (its parent's parent), and every \<open>save_results\<close> call of the
  execution goes to that root with the (city, model, scenario) that \<open>get_metadata\<close> returns
  for the file of its iteration: the saves follow the processed files one for one, and
  match them all when the execution reaches the summary.
\<close>

theorem results_saved_under_grandparent:
  "(calls exporter_of (trace E a) = [] \<or>
    calls exporter_of (trace E a) = [parent (parent (precipitation_dir_path a))]) \<and>
   (\<forall>(r, c, m, s) \<in> set (calls save_of (trace E a)).
      r = parent (parent (precipitation_dir_path a)) \<and>
      (\<exists>f \<in> set (calls metadata_of (trace E a)). get_metadata E f = Inr (c, m, s))) \<and>
   prefix (map save_key (calls save_of (trace E a)))
     (map (\<lambda>f. (parent (parent (precipitation_dir_path a)), get_metadata E f))
        (calls metadata_of (trace E a))) \<and>
   (reaches_summary E a \<longrightarrow>
      map save_key (calls save_of (trace E a)) =
      map (\<lambda>f. (parent (parent (precipitation_dir_path a)), get_metadata E f))
        (calls metadata_of (trace E a)))"
proof -
  let ?gp = "parent (parent (precipitation_dir_path a))"
  note m = main_saves[OF main_trace_outcome, of E a]
  from m have p: "prefix (map save_key (calls save_of (trace E a)))
     (map (\<lambda>f. (?gp, get_metadata E f)) (calls metadata_of (trace E a)))" by simp
  have "r = ?gp \<and> (\<exists>f \<in> set (calls metadata_of (trace E a)). get_metadata E f = Inr (c, m, s))"
    if "(r, c, m, s) \<in> set (calls save_of (trace E a))" for r c m s
  proof -
    from that have "save_key (r, c, m, s) \<in> set (map save_key (calls save_of (trace E a)))"
      by (simp only: set_map) (rule imageI)
    with set_mono_prefix[OF p] have
      "(r, Inr (c, m, s)) \<in> set (map (\<lambda>f. (?gp, get_metadata E f)) (calls metadata_of (trace E a)))"
      by auto
    then show ?thesis by auto
  qed
  with m show ?thesis by (auto simp: reaches_summary_def)
qed

theorem results_saved_under_grandparent_witness:
  "reaches_summary (demo_env three_files) demo_args \<and>
   parent (parent (precipitation_dir_path demo_args)) = Path ''C:/'' [''data''] \<and>
   calls save_of (trace (demo_env three_files) demo_args) =
     [(Path ''C:/'' [''data''], ''Floripa'', ''a.csv'', ''ssp245''),
      (Path ''C:/'' [''data''], ''Floripa'', ''b.csv'', ''ssp245''),
      (Path ''C:/'' [''data''], ''Floripa'', ''notes.txt'', ''ssp245'')] \<and>
   map save_key (calls save_of (trace (demo_env three_files) demo_args)) =
     map (\<lambda>f. (Path ''C:/'' [''data''], get_metadata (demo_env three_files) f))
       (calls metadata_of (trace (demo_env three_files) demo_args))"
proof -
  have s: "calls save_of (trace (demo_env three_files) demo_args) =
     [(Path ''C:/'' [''data''], ''Floripa'', ''a.csv'', ''ssp245''),
      (Path ''C:/'' [''data''], ''Floripa'', ''b.csv'', ''ssp245''),
      (Path ''C:/'' [''data''], ''Floripa'', ''notes.txt'', ''ssp245'')]"
    by (simp add: run_defs demo_defs)
  have g: "parent (parent (precipitation_dir_path demo_args)) = Path ''C:/'' [''data'']"
    by (simp add: demo_args_def)
  from results_saved_under_grandparent [of "demo_env three_files" demo_args]
    three_files_reaches_summary s g
  show ?thesis by simp
qed

section \<open>The order of processing\<close>

text \<open>
  C10: the files passed to \<open>get_metadata\<close> and then to a simulation run are the entries of the
  directory listing, in the order of the listing, with none left out, whatever their names:
  in every execution the processed files are an initial part of the listing, the first-run
  file is the first of them, and an execution that reaches the summary has processed the
  whole listing.
\<close>

theorem entries_processed_in_listing_order:
  assumes "\<forall>h. listdir E h (precipitation_dir_path a) = Inr names"
  shows "prefix (calls metadata_of (trace E a)) (map (child (precipitation_dir_path a)) names) \<and>
         prefix (calls run_of (trace E a)) (map (child (precipitation_dir_path a)) names) \<and>
         prefix (calls run_of (trace E a)) (calls metadata_of (trace E a)) \<and>
         map fst (calls run_first_of (trace E a)) = take 1 (calls run_of (trace E a)) \<and>
         (reaches_summary E a \<longrightarrow>
            calls metadata_of (trace E a) = map (child (precipitation_dir_path a)) names \<and>
            calls run_of (trace E a) = map (child (precipitation_dir_path a)) names)"
proof -
  have "calls metadata_of (trace E a) = map (child (precipitation_dir_path a)) names \<and>
        calls run_of (trace E a) = map (child (precipitation_dir_path a)) names"
    if "reaches_summary E a"
  proof -
    from that have "outcome E a = Inr () \<or> outcome E a = Inl StatisticsError"
      by (simp add: reaches_summary_def)
    from main_reached[OF main_trace_outcome this] assms show ?thesis by auto
  qed
  with main_order[OF main_trace_outcome assms] show ?thesis by blast
qed

theorem entries_processed_in_listing_order_witness:
  "reaches_summary (demo_env three_files) demo_args \<and>
   calls metadata_of (trace (demo_env three_files) demo_args) =
     [child demo_dir ''a.csv'', child demo_dir ''b.csv'', child demo_dir ''notes.txt''] \<and>
   calls run_of (trace (demo_env three_files) demo_args) =
     [child demo_dir ''a.csv'', child demo_dir ''b.csv'', child demo_dir ''notes.txt''] \<and>
   map fst (calls run_first_of (trace (demo_env three_files) demo_args)) =
     [child demo_dir ''a.csv'']"
  using entries_processed_in_listing_order
          [where E = "demo_env three_files" and a = demo_args and names = three_files]
        demo_listing three_files_reaches_summary
  by (simp add: demo_args_def demo_dir_def three_files_def)

section \<open>Launching the external process\<close>




section \<open>The logger's level\<close>

text \<open>
  C9: after \<open>setup_logger\<close> the logger's effective level is DEBUG whenever the verbose
  flag is set, whatever the quiet count; otherwise it is WARNING for a quiet count of
  exactly 1, ERROR for a quiet count of 2 or more, and INFO for a quiet count of 0.
\<close>

theorem setup_logger_effective_level:
  "(verbose \<longrightarrow> getEffectiveLevel inh (setup_logger lg q verbose) = DEBUG) \<and>
   (\<not> verbose \<and> q = 1 \<longrightarrow> getEffectiveLevel inh (setup_logger lg q verbose) = WARNING) \<and>
   (\<not> verbose \<and> q \<ge> 2 \<longrightarrow> getEffectiveLevel inh (setup_logger lg q verbose) = ERROR) \<and>
   (\<not> verbose \<and> q = 0 \<longrightarrow> getEffectiveLevel inh (setup_logger lg q verbose) = INFO)"
  by (simp add: getEffectiveLevel_def setup_logger_def log_level_def Let_def
      DEBUG_def INFO_def WARNING_def ERROR_def)

theorem setup_logger_effective_level_witness:
  "getEffectiveLevel 30 (setup_logger \<lparr>propagate = False, level = 0, handlers = []\<rparr> 3 True) = DEBUG \<and>
   getEffectiveLevel 30 (setup_logger \<lparr>propagate = False, level = 0, handlers = []\<rparr> 1 False) = WARNING \<and>
   getEffectiveLevel 30 (setup_logger \<lparr>propagate = False, level = 0, handlers = []\<rparr> 2 False) = ERROR \<and>
   getEffectiveLevel 30 (setup_logger \<lparr>propagate = False, level = 0, handlers = []\<rparr> 0 False) = INFO"
  using setup_logger_effective_level
          [where verbose = True and q = 3 and inh = 30
             and lg = "\<lparr>propagate = False, level = 0, handlers = []\<rparr>"]
        setup_logger_effective_level
          [where verbose = False and q = 1 and inh = 30
             and lg = "\<lparr>propagate = False, level = 0, handlers = []\<rparr>"]
        setup_logger_effective_level
          [where verbose = False and q = 2 and inh = 30
             and lg = "\<lparr>propagate = False, level = 0, handlers = []\<rparr>"]
        setup_logger_effective_level
          [where verbose = False and q = 0 and inh = 30
             and lg = "\<lparr>propagate = False, level = 0, handlers = []\<rparr>"]
  by simp

end
